theory Spec2Isabelle
  imports Main
begin

section \<open>JavaScript values\<close>

text \<open>
  The values that flow through \<^verbatim>\<open>src/index.ts\<close>. An object is the list of its own
  enumerable properties in insertion order; a property read takes the first entry of a
  key. Numbers are integers here: the code does no arithmetic, it only stores and
  compares them. \<open>JFile\<close> is the second kind of form-data entry value.
\<close>

datatype jsval =
    JUndefined
  | JNull
  | JBool bool
  | JNum int
  | JStr string
  | JFile string
  | JArr "jsval list"
  | JObj "(string \<times> jsval) list"

type_synonym props = "(string \<times> jsval) list"

text \<open>What a handler or the request body may throw.\<close>

datatype thrown = TypeError | Thrown jsval

text \<open>Truthiness, as \<^verbatim>\<open>if (x)\<close> and \<^verbatim>\<open>x && y\<close> test it.\<close>

fun truthy :: "jsval \<Rightarrow> bool" where
  "truthy JUndefined = False"
| "truthy JNull = False"
| "truthy (JBool b) = b"
| "truthy (JNum n) = (n \<noteq> 0)"
| "truthy (JStr s) = (s \<noteq> [])"
| "truthy (JFile f) = True"
| "truthy (JArr xs) = True"
| "truthy (JObj ps) = True"

text \<open>
  \<^verbatim>\<open>o.k\<close>, \<^verbatim>\<open>o[k]\<close> and \<^verbatim>\<open>o?.k\<close> for the named data properties the code reads
  (\<^verbatim>\<open>success\<close>, \<^verbatim>\<open>data\<close>, \<^verbatim>\<open>error\<close>, \<^verbatim>\<open>fieldErrors\<close>, \<^verbatim>\<open>init\<close>, \<^verbatim>\<open>errors\<close>,
  \<^verbatim>\<open>_action\<close>, an action name): the own property, \<^verbatim>\<open>undefined\<close> when there is none.
  On \<^verbatim>\<open>undefined\<close> and \<^verbatim>\<open>null\<close> this is the optional chain \<^verbatim>\<open>?.\<close>; every plain
  \<^verbatim>\<open>.\<close> of the source is applied to an object. A name found only on a prototype
  (\<^verbatim>\<open>toString\<close>, \<^verbatim>\<open>constructor\<close>) yields a built-in that has none of the properties
  above, so reading \<^verbatim>\<open>success\<close> from it gives \<^verbatim>\<open>undefined\<close> as well.
\<close>

definition lookup :: "props \<Rightarrow> string \<Rightarrow> jsval" where
  "lookup ps k = (case map_of ps k of None \<Rightarrow> JUndefined | Some v \<Rightarrow> v)"

fun get_prop :: "jsval \<Rightarrow> string \<Rightarrow> jsval" where
  "get_prop (JObj ps) k = lookup ps k"
| "get_prop v k = JUndefined"

text \<open>\<^verbatim>\<open>delete o.k\<close>.\<close>

definition delete_prop :: "props \<Rightarrow> string \<Rightarrow> props" where
  "delete_prop ps k = filter (\<lambda>(k', v). k' \<noteq> k) ps"

text \<open>
  Defining the data property \<open>k\<close>: an existing key keeps its place and takes the new
  value, a new key goes to the end. This is what \<^verbatim>\<open>Object.fromEntries\<close>, an object
  spread and a computed key in an object literal do.
\<close>

fun define_prop :: "string \<Rightarrow> 'a \<Rightarrow> (string \<times> 'a) list \<Rightarrow> (string \<times> 'a) list" where
  "define_prop k v [] = [(k, v)]"
| "define_prop k v ((k', v') # ps) =
     (if k' = k then (k, v) # ps else (k', v') # define_prop k v ps)"

text \<open>
  The assignment \<^verbatim>\<open>acc[k] = v\<close> on an object created by the literal \<^verbatim>\<open>{}\<close>. Its
  prototype is \<^verbatim>\<open>Object.prototype\<close>, whose accessor \<^verbatim>\<open>__proto__\<close> takes an assignment
  to that key: no own property is created.
\<close>

definition assign_prop :: "props \<Rightarrow> string \<Rightarrow> jsval \<Rightarrow> props" where
  "assign_prop acc k v = (if k = ''__proto__'' then acc else define_prop k v acc)"

text \<open>The property names every object created by a literal inherits from \<^verbatim>\<open>Object.prototype\<close>.\<close>

definition Object_prototype :: "string list" where
  "Object_prototype =
     [''constructor'', ''__defineGetter__'', ''__defineSetter__'', ''hasOwnProperty'',
      ''__lookupGetter__'', ''__lookupSetter__'', ''isPrototypeOf'',
      ''propertyIsEnumerable'', ''toString'', ''valueOf'', ''__proto__'',
      ''toLocaleString'']"

text \<open>The decimal writing of a number, for the index keys of an array.\<close>

definition digit :: "nat \<Rightarrow> char" where
  "digit d = ''0123456789'' ! d"

fun string_of_nat :: "nat \<Rightarrow> string" where
  "string_of_nat n =
     (if n < 10 then [digit n] else string_of_nat (n div 10) @ [digit (n mod 10)])"

declare string_of_nat.simps [simp del]

text \<open>
  \<^verbatim>\<open>Object.entries(v)\<close> for a value that is not nullish: the own enumerable string-keyed
  properties. An array and a string have their indices; a number, a boolean and a
  \<^verbatim>\<open>File\<close> have none.
\<close>

fun Object_entries :: "jsval \<Rightarrow> props" where
  "Object_entries (JObj ps) = ps"
| "Object_entries (JArr xs) = zip (map string_of_nat [0..<length xs]) xs"
| "Object_entries (JStr s) = zip (map string_of_nat [0..<length s]) (map (\<lambda>c. JStr [c]) s)"
| "Object_entries v = []"

text \<open>\<^verbatim>\<open>errors?.[0]\<close>.\<close>

fun elem0 :: "jsval \<Rightarrow> jsval" where
  "elem0 (JArr xs) = (case xs of [] \<Rightarrow> JUndefined | x # _ \<Rightarrow> x)"
| "elem0 (JStr s) = (case s of [] \<Rightarrow> JUndefined | c # _ \<Rightarrow> JStr [c])"
| "elem0 (JObj ps) = lookup ps ''0''"
| "elem0 v = JUndefined"


section \<open>The validator\<close>

text \<open>
  Modelled from the spec: the schema library (zod) is an external collaborator whose
  code is not part of the repository. The definitions of this section follow section 4.2
  of the specification (steps 2 to 4) and the documented behaviour of the zod 3 calls
  the dispatcher makes: \<^verbatim>\<open>schema.extend\<close>, \<^verbatim>\<open>z.literal\<close>, \<^verbatim>\<open>z.discriminatedUnion\<close>,
  \<^verbatim>\<open>spa\<close> (the non-throwing parse) and \<^verbatim>\<open>error.flatten()\<close>. The validator of a single
  field is a parameter: any function from the submitted value to a parsed value or to
  the messages of its issues, of which a failing field has at least one.
\<close>

datatype field_result = Valid jsval | Invalid string "string list"

type_synonym zod_type = "jsval \<Rightarrow> field_result"

datatype unknown_keys = Strip | Passthrough | Strict

record zod_object =
  shape :: "(string \<times> zod_type) list"
  unknownKeys :: unknown_keys

text \<open>An issue: its path and its message.\<close>

type_synonym issue = "string list \<times> string"

datatype safe_parse_result = ParseSuccess jsval | ParseError "issue list"

definition quoted :: "string \<Rightarrow> string" where
  "quoted s = [CHR 0x27] @ s @ [CHR 0x27]"

fun join_values :: "string list \<Rightarrow> string" where
  "join_values [] = []"
| "join_values [s] = quoted s"
| "join_values (s # ss) = quoted s @ '' | '' @ join_values ss"

text \<open>\<^verbatim>\<open>z.literal(name)\<close>.\<close>

definition literal :: "string \<Rightarrow> zod_type" where
  "literal name v =
     (if v = JStr name then Valid v
      else Invalid (''Invalid literal value, expected '' @ quoted name) [])"

text \<open>\<^verbatim>\<open>schema.extend(augmentation)\<close>: the shape \<^verbatim>\<open>{...shape, ...augmentation}\<close>.\<close>

definition extend_schema :: "zod_object \<Rightarrow> (string \<times> zod_type) list \<Rightarrow> zod_object" where
  "extend_schema s augmentation =
     s\<lparr>shape := foldl (\<lambda>sh (k, t). define_prop k t sh) (shape s) augmentation\<rparr>"

text \<open>\<^verbatim>\<open>k in o\<close> for the plain object \<^verbatim>\<open>Object.fromEntries\<close> creates.\<close>

definition has_property :: "props \<Rightarrow> string \<Rightarrow> bool" where
  "has_property ps k \<longleftrightarrow> k \<in> set (map fst ps) \<or> k \<in> set Object_prototype"

text \<open>
  Parsing an object: every key of the shape is validated on the submitted value (all of
  them, so that the issues of every field are collected), a key that is not in the shape
  is dropped, kept or reported according to \<open>unknownKeys\<close>. The parsed object has the
  keys of the shape, in the order of the shape.
\<close>

definition field_issues :: "string \<Rightarrow> field_result \<Rightarrow> issue list" where
  "field_issues k r =
     (case r of Valid v \<Rightarrow> [] | Invalid m ms \<Rightarrow> map (\<lambda>msg. ([k], msg)) (m # ms))"

definition extra_keys :: "zod_object \<Rightarrow> props \<Rightarrow> string list" where
  "extra_keys s d = filter (\<lambda>k. k \<notin> set (map fst (shape s))) (map fst d)"

definition object_issues :: "zod_object \<Rightarrow> props \<Rightarrow> issue list" where
  "object_issues s d =
     concat (map (\<lambda>(k, t). field_issues k (t (lookup d k))) (shape s)) @
     (if unknownKeys s = Strict \<and> extra_keys s d \<noteq> []
      then [([], ''Unrecognized key(s) in object: '' @ join_values (extra_keys s d))]
      else [])"

fun parsed_fields :: "(string \<times> zod_type) list \<Rightarrow> props \<Rightarrow> props" where
  "parsed_fields [] d = []"
| "parsed_fields ((k, t) # sh) d =
     (case t (lookup d k) of
        Valid v \<Rightarrow>
          (if k \<noteq> ''__proto__'' \<and> (v \<noteq> JUndefined \<or> has_property d k)
           then (k, v) # parsed_fields sh d
           else parsed_fields sh d)
      | Invalid m ms \<Rightarrow> parsed_fields sh d)"

definition object_value :: "zod_object \<Rightarrow> props \<Rightarrow> props" where
  "object_value s d =
     parsed_fields (shape s) d @
     (if unknownKeys s = Passthrough
      then filter (\<lambda>(k, v). k \<in> set (extra_keys s d) \<and> k \<noteq> ''__proto__'') d
      else [])"

definition object_parse :: "zod_object \<Rightarrow> props \<Rightarrow> safe_parse_result" where
  "object_parse s d =
     (if object_issues s d = [] then ParseSuccess (JObj (object_value s d))
      else ParseError (object_issues s d))"

text \<open>
  \<^verbatim>\<open>z.discriminatedUnion(discriminator, options)\<close>. zod reads the value of each option's
  literal into a map from that value to the option; here an option comes paired with the
  value of its literal.
\<close>

record zod_discriminated_union =
  discriminator :: string
  options :: "(string \<times> zod_object) list"

text \<open>
  \<^verbatim>\<open>schema.spa(d)\<close>: the option is chosen by the submitted value of the discriminator,
  which has to be one of the literals; without an option the only issue is the one of
  the discriminator.
\<close>

definition spa :: "zod_discriminated_union \<Rightarrow> props \<Rightarrow> safe_parse_result" where
  "spa u d =
     (case (case lookup d (discriminator u) of
              JStr v \<Rightarrow> map_of (options u) v
            | _ \<Rightarrow> None) of
        None \<Rightarrow>
          ParseError
            [([discriminator u],
              ''Invalid discriminator value. Expected '' @ join_values (map fst (options u)))]
      | Some option \<Rightarrow> object_parse option d)"

text \<open>
  \<^verbatim>\<open>error.flatten().fieldErrors\<close>: the messages of the issues with a path, grouped by
  the first element of the path.
\<close>

definition flatten_step :: "(string \<times> string list) list \<Rightarrow> issue \<Rightarrow> (string \<times> string list) list" where
  "flatten_step acc i =
     (case fst i of
        [] \<Rightarrow> acc
      | k # path \<Rightarrow>
          define_prop k ((case map_of acc k of None \<Rightarrow> [] | Some ms \<Rightarrow> ms) @ [snd i]) acc)"

definition flatten_fieldErrors :: "issue list \<Rightarrow> jsval" where
  "flatten_fieldErrors issues =
     JObj (map (\<lambda>(k, ms). (k, JArr (map JStr ms))) (foldl flatten_step [] issues))"

section \<open>The dispatcher\<close>

text \<open>
  The arguments of a route action. Of the request the dispatcher only uses
  \<^verbatim>\<open>request.clone().formData()\<close>: the entries of the form in the order they were
  submitted, or the rejection of the body. The route parameters and the load context go
  to the handler as they are.
\<close>

type_synonym form_data = "(string \<times> jsval) list"

record 'p action_function_args =
  request :: "thrown + form_data"
  params :: 'p

text \<open>
  The context of a handler. Its two helpers \<^verbatim>\<open>data\<close> and \<^verbatim>\<open>error\<close> do not depend on
  the request; they are the functions \<open>ctx_data\<close> and \<open>ctx_error\<close>.
\<close>

record action_context =
  input :: jsval

definition ctx_data :: "jsval \<Rightarrow> jsval \<Rightarrow> props" where
  "ctx_data d i = [(''success'', JBool True), (''data'', d), (''init'', i)]"

definition ctx_error :: "jsval \<Rightarrow> jsval \<Rightarrow> jsval \<Rightarrow> props" where
  "ctx_error e i fe =
     [(''success'', JBool False), (''error'', e), (''fieldErrors'', fe), (''init'', i)]"

text \<open>An action: its schema and its handler, which returns an object or throws.\<close>

record 'p action =
  schema :: zod_object
  handler :: "action_context \<Rightarrow> 'p action_function_args \<Rightarrow> thrown + props"

text \<open>
  The object \<^verbatim>\<open>actions\<close>: its own entries, and the property names it inherits (those of
  \<open>Object_prototype\<close> for an object literal, none for \<^verbatim>\<open>Object.create(null)\<close>).
\<close>

record 'p actions =
  entries :: "(string \<times> 'p action) list"
  inherited :: "string list"

text \<open>\<^verbatim>\<open>action in actions\<close>: own and inherited properties.\<close>

definition in_actions :: "string \<Rightarrow> 'p actions \<Rightarrow> bool" where
  "in_actions k acts \<longleftrightarrow> k \<in> set (map fst (entries acts)) \<or> k \<in> set (inherited acts)"

text \<open>What \<^verbatim>\<open>data(value, init)\<close> of the router is given; \<open>JUndefined\<close> is an omitted \<open>init\<close>.\<close>

record data_with_response_init =
  data :: jsval
  init :: jsval

text \<open>\<^verbatim>\<open>Object.fromEntries(formData)\<close>: the last value of a repeated key stays.\<close>

definition fromEntries :: "form_data \<Rightarrow> props" where
  "fromEntries fd = foldl (\<lambda>acc (k, v). define_prop k v acc) [] fd"

text \<open>\<^verbatim>\<open>formData.get(k)\<close>: the first value of the key, \<^verbatim>\<open>null\<close> without one.\<close>

definition formData_get :: "form_data \<Rightarrow> string \<Rightarrow> jsval" where
  "formData_get fd k = (case map_of fd k of None \<Rightarrow> JNull | Some v \<Rightarrow> v)"

text \<open>Lines 117 to 120: the schema of every action with its literal, and their union.\<close>

definition extended :: "string \<Rightarrow> 'p action \<Rightarrow> zod_object" where
  "extended name a = extend_schema (schema a) [(''_action'', literal name)]"

definition union_schema :: "(string \<times> 'p action) list \<Rightarrow> zod_discriminated_union" where
  "union_schema actionsEntries =
     \<lparr>discriminator = ''_action'',
      options = map (\<lambda>(name, a). (name, extended name a)) actionsEntries\<rparr>"

text \<open>
  \<^verbatim>\<open>matchAction\<close>. On the success path \<^verbatim>\<open>result.data._action\<close> is the key under which
  the handler is looked up; a value with no handler makes \<^verbatim>\<open>actions[action].handler\<close> a
  \<^verbatim>\<open>TypeError\<close>.
\<close>

definition matchAction ::
  "'p action_function_args \<Rightarrow> 'p actions \<Rightarrow> thrown + data_with_response_init" where
  "matchAction args acts =
     (let actionsEntries = entries acts in
      if actionsEntries = [] then Inr \<lparr>data = JObj [], init = JNum 400\<rparr>
      else
        case request args of
          Inl e \<Rightarrow> Inl e
        | Inr formData \<Rightarrow>
            (case spa (union_schema actionsEntries) (fromEntries formData) of
               ParseSuccess result_data \<Rightarrow>
                 (case get_prop result_data ''_action'' of
                    JStr action \<Rightarrow>
                      (case map_of actionsEntries action of
                         None \<Rightarrow> Inl TypeError
                       | Some a \<Rightarrow>
                           (case handler a \<lparr>input = result_data\<rparr> args of
                              Inl e \<Rightarrow> Inl e
                            | Inr output \<Rightarrow>
                                Inr \<lparr>data = JObj [(action, JObj (delete_prop output ''init''))],
                                     init = lookup output ''init''\<rparr>))
                  | _ \<Rightarrow> Inl TypeError)
             | ParseError issues \<Rightarrow>
                 (case formData_get formData ''_action'' of
                    JStr action \<Rightarrow>
                      if in_actions action acts
                      then Inr \<lparr>data = JObj [(action,
                                   JObj [(''success'', JBool False),
                                         (''fieldErrors'', flatten_fieldErrors issues)])],
                                init = JNum 400\<rparr>
                      else Inr \<lparr>data = JObj [], init = JNum 400\<rparr>
                  | _ \<Rightarrow> Inr \<lparr>data = JObj [], init = JNum 400\<rparr>)))"

section \<open>The result accessor\<close>

text \<open>Lines 210 to 214: the reduction that keeps the first error of every field.\<close>

definition first_error :: "props \<Rightarrow> string \<times> jsval \<Rightarrow> props" where
  "first_error acc e =
     (let error = elem0 (snd e) in
      if truthy error then assign_prop acc (fst e) error else acc)"

text \<open>\<^verbatim>\<open>actionResult\<close>; the response is \<open>None\<close> when it is \<^verbatim>\<open>undefined\<close>.\<close>

definition actionResult :: "props option \<Rightarrow> string \<Rightarrow> jsval \<Rightarrow> props" where
  "actionResult result action opts =
     (let actionResult' = (case result of None \<Rightarrow> JUndefined | Some r \<Rightarrow> lookup r action) in
      if get_prop actionResult' ''success'' = JUndefined then [(''success'', JUndefined)]
      else if truthy (get_prop actionResult' ''success'')
      then [(''success'', JBool True), (''data'', get_prop actionResult' ''data'')]
      else
        let fieldErrors = get_prop actionResult' ''fieldErrors'';
            fieldErrors' =
              (if truthy fieldErrors \<and> get_prop opts ''errors'' \<noteq> JStr ''all''
               then JObj (foldl first_error [] (Object_entries fieldErrors))
               else fieldErrors)
        in [(''success'', JBool False), (''error'', get_prop actionResult' ''error''),
            (''fieldErrors'', fieldErrors')])"

section \<open>The actions of the repository's test\<close>

text \<open>
  The fixture of the test file: the action \<^verbatim>\<open>test\<close>, whose schema has the field
  \<^verbatim>\<open>data\<close> (a coerced number) and whose handler compares it with the route parameter
  \<^verbatim>\<open>id\<close>, and the action \<^verbatim>\<open>ping\<close> with an empty schema. Both are registered in an
  object literal. The field validator \<open>coerce_number\<close> stands for \<^verbatim>\<open>z.coerce.number\<close>
  on the values the examples submit only: it accepts the strings of decimal digits and
  rejects every other value, which is what \<^verbatim>\<open>Number(x)\<close> does for \<^verbatim>\<open>"1"\<close>, \<^verbatim>\<open>"one"\<close>
  and a missing field; it is not the coercion of signs, fractions, blanks or the empty
  string.
\<close>

definition is_digit :: "char \<Rightarrow> bool" where
  "is_digit c \<longleftrightarrow> (48::nat) \<le> of_char c \<and> of_char c \<le> (57::nat)"

definition number_of_digits :: "string \<Rightarrow> nat" where
  "number_of_digits s = foldl (\<lambda>n c. 10 * n + (of_char c - 48)) 0 s"

definition coerce_number :: zod_type where
  "coerce_number v =
     (case v of
        JStr s \<Rightarrow>
          if s \<noteq> [] \<and> list_all is_digit s then Valid (JNum (int (number_of_digits s)))
          else Invalid ''expected number'' []
      | _ \<Rightarrow> Invalid ''expected number'' [])"

definition test :: "string action" where
  "test =
     \<lparr>schema = \<lparr>shape = [(''data'', coerce_number)], unknownKeys = Strip\<rparr>,
      handler = (\<lambda>ctx args.
        case get_prop (input ctx) ''data'' of
          JNum n \<Rightarrow>
            if string_of_nat (nat n) \<noteq> params args
            then Inr (ctx_error (JStr ''Invalid data'') (JNum 403)
                        (JObj [(''data'', JArr [JStr ''data and id param must match''])]))
            else Inr (ctx_data (JObj [(''id'', JStr (params args)), (''data'', JNum n)])
                        (JNum 200))
        | _ \<Rightarrow> Inl TypeError)\<rparr>"

definition ping :: "string action" where
  "ping =
     \<lparr>schema = \<lparr>shape = [], unknownKeys = Strip\<rparr>,
      handler = (\<lambda>ctx args. Inr (ctx_data (JStr ''pong'') JUndefined))\<rparr>"

definition registry :: "string actions" where
  "registry = \<lparr>entries = [(''test'', test), (''ping'', ping)], inherited = Object_prototype\<rparr>"

text \<open>An action whose handler answers with the input it was given.\<close>

definition reflect :: "string action" where
  "reflect =
     \<lparr>schema = \<lparr>shape = [(''value'', Valid)], unknownKeys = Strip\<rparr>,
      handler = (\<lambda>ctx args. Inr (ctx_data (input ctx) JUndefined))\<rparr>"

section \<open>Properties of the validator and of property definition\<close>

lemma map_of_define_prop:
  "map_of (define_prop k v ps) k' = (if k' = k then Some v else map_of ps k')"
  by (induction ps) auto

lemma delete_prop_absent: "k \<notin> fst ` set (delete_prop ps k)"
  by (auto simp: delete_prop_def)

lemma map_of_delete_prop: "k \<noteq> k' \<Longrightarrow> map_of (delete_prop ps k') k = map_of ps k"
  by (induction ps) (auto simp: delete_prop_def)

lemma lookup_absent: "k \<notin> fst ` set ps \<Longrightarrow> lookup ps k = JUndefined"
proof -
  assume "k \<notin> fst ` set ps"
  then have "map_of ps k = None" by (simp add: map_of_eq_None_iff)
  then show ?thesis by (simp add: lookup_def)
qed

lemma map_of_options:
  "map_of (map (\<lambda>(name, a). (name, extended name a)) es) A =
     (case map_of es A of None \<Rightarrow> None | Some a \<Rightarrow> Some (extended A a))"
  by (induction es) auto

lemma shape_extended:
  "shape (extended A a) = define_prop ''_action'' (literal A) (shape (schema a))"
  by (simp add: extended_def extend_schema_def)

text \<open>The parsed data of an extended schema has the discriminator.\<close>

lemma map_of_parsed_fields_action:
  "lookup d ''_action'' = JStr A \<Longrightarrow>
   map_of (parsed_fields (define_prop ''_action'' (literal A) sh) d) ''_action'' = Some (JStr A)"
proof (induction sh)
  case Nil
  then show ?case by (simp add: literal_def)
next
  case (Cons p sh)
  obtain k t where p: "p = (k, t)" by (cases p)
  show ?case
  proof (cases "k = ''_action''")
    case True
    with Cons.prems show ?thesis by (simp add: p literal_def)
  next
    case False
    with Cons show ?thesis by (simp add: p split: field_result.splits)
  qed
qed

lemma lookup_object_value_action:
  "lookup d ''_action'' = JStr A \<Longrightarrow>
   lookup (object_value (extended A a) d) ''_action'' = JStr A"
  by (simp add: lookup_def object_value_def shape_extended map_of_parsed_fields_action)

lemma spa_union_schema:
  "lookup d ''_action'' = JStr A \<Longrightarrow> map_of es A = Some a \<Longrightarrow>
   spa (union_schema es) d = object_parse (extended A a) d"
  by (simp add: spa_def union_schema_def map_of_options)

text \<open>
  When the schema of an action has no field \<^verbatim>\<open>_action\<close> of its own, its extension
  reports on a form with the right discriminator exactly the issues that the schema
  reports on the remaining fields: the form passes the extended schema when the remaining
  fields satisfy the schema of the action.
\<close>

lemma define_prop_new:
  "k \<notin> fst ` set ps \<Longrightarrow> define_prop k v ps = ps @ [(k, v)]"
  by (induction ps) auto

lemma lookup_delete_prop: "k \<noteq> k' \<Longrightarrow> lookup (delete_prop d k') k = lookup d k"
  by (simp add: lookup_def map_of_delete_prop)

lemma map_fst_delete_prop: "map fst (delete_prop d k) = filter (\<lambda>k'. k' \<noteq> k) (map fst d)"
  by (induction d) (auto simp: delete_prop_def)

lemma extra_keys_extended:
  assumes "''_action'' \<notin> fst ` set (shape (schema a))"
  shows "extra_keys (extended A a) d = extra_keys (schema a) (delete_prop d ''_action'')"
  using assms
  by (auto simp: extra_keys_def shape_extended define_prop_new map_fst_delete_prop
      intro!: filter_cong)

lemma field_issues_remaining:
  assumes "''_action'' \<notin> fst ` set sh"
  shows "map (\<lambda>(k, t). field_issues k (t (lookup (delete_prop d ''_action'') k))) sh =
         map (\<lambda>(k, t). field_issues k (t (lookup d k))) sh"
  using assms by (induction sh) (auto simp: lookup_delete_prop)

lemma object_issues_extended:
  assumes "lookup d ''_action'' = JStr A"
      and "''_action'' \<notin> fst ` set (shape (schema a))"
  shows "object_issues (extended A a) d = object_issues (schema a) (delete_prop d ''_action'')"
proof -
  have u: "unknownKeys (extended A a) = unknownKeys (schema a)"
    by (simp add: extended_def extend_schema_def)
  have l: "field_issues ''_action'' (literal A (lookup d ''_action'')) = []"
    by (simp add: assms(1) field_issues_def literal_def)
  from assms(2) show ?thesis
    by (simp add: object_issues_def shape_extended define_prop_new extra_keys_extended u l
        field_issues_remaining)
qed

section \<open>The success path of the dispatcher\<close>

text \<open>
  When the submitted discriminator names the registered action \<open>a\<close> and the form passes
  the extended schema of \<open>a\<close> with parsed data \<open>v\<close>, the handler of \<open>a\<close> is called on
  \<open>v\<close>, and what it returns or throws decides the result.
\<close>

lemma matchAction_success:
  assumes "request args = Inr fd"
      and "lookup (fromEntries fd) ''_action'' = JStr A"
      and "map_of (entries acts) A = Some a"
      and "object_parse (extended A a) (fromEntries fd) = ParseSuccess v"
  shows "get_prop v ''_action'' = JStr A"
    and "matchAction args acts =
           (case handler a \<lparr>input = v\<rparr> args of
              Inl e \<Rightarrow> Inl e
            | Inr output \<Rightarrow>
                Inr \<lparr>data = JObj [(A, JObj (delete_prop output ''init''))],
                     init = lookup output ''init''\<rparr>)"
proof -
  from assms(4) have v: "v = JObj (object_value (extended A a) (fromEntries fd))"
    by (simp add: object_parse_def split: if_splits)
  show a: "get_prop v ''_action'' = JStr A"
    by (simp add: v lookup_object_value_action [OF assms(2)])
  from assms(3) have ne: "entries acts \<noteq> []" by auto
  have "spa (union_schema (entries acts)) (fromEntries fd) = ParseSuccess v"
    by (simp add: spa_union_schema [OF assms(2,3)] assms(4))
  with ne a show "matchAction args acts =
           (case handler a \<lparr>input = v\<rparr> args of
              Inl e \<Rightarrow> Inl e
            | Inr output \<Rightarrow>
                Inr \<lparr>data = JObj [(A, JObj (delete_prop output ''init''))],
                     init = lookup output ''init''\<rparr>)"
    by (simp add: matchAction_def assms(1,3))
qed

section \<open>The reduction of the result accessor\<close>

lemma map_of_first_error:
  "map_of (first_error acc (f, errs)) k =
     (if k = f \<and> truthy (elem0 errs) \<and> f \<noteq> ''__proto__'' then Some (elem0 errs)
      else map_of acc k)"
  by (simp add: first_error_def assign_prop_def Let_def map_of_define_prop)

lemma map_of_foldl_first_error:
  "distinct (map fst es) \<Longrightarrow>
   map_of (foldl first_error acc es) k =
     (case map_of es k of
        None \<Rightarrow> map_of acc k
      | Some errs \<Rightarrow>
          if truthy (elem0 errs) \<and> k \<noteq> ''__proto__'' then Some (elem0 errs)
          else map_of acc k)"
proof (induction es arbitrary: acc)
  case Nil
  then show ?case by simp
next
  case (Cons e es)
  obtain f errs where e: "e = (f, errs)" by (cases e)
  from Cons.prems have d: "distinct (map fst es)" and nf: "f \<notin> set (map fst es)"
    by (simp_all add: e)
  from nf have none: "map_of es f = None"
    by (simp add: map_of_eq_None_iff)
  show ?case
  proof (cases "k = f")
    case True
    have "map_of (foldl first_error (first_error acc (f, errs)) es) f =
            map_of (first_error acc (f, errs)) f"
      using Cons.IH [OF d, of "first_error acc (f, errs)"] True none by simp
    with True none show ?thesis
      by (simp add: e map_of_first_error)
  next
    case False
    then show ?thesis
      by (simp add: e Cons.IH [OF d] map_of_first_error split: option.splits)
  qed
qed

lemma test_valid_parse:
  "object_parse (extended ''test'' test)
       (fromEntries [(''_action'', JStr ''test''), (''data'', JStr ''1'')])
     = ParseSuccess (JObj [(''data'', JNum 1), (''_action'', JStr ''test'')])"
  by (simp add: fromEntries_def lookup_def object_parse_def object_issues_def
      object_value_def extended_def extend_schema_def test_def field_issues_def
      coerce_number_def is_digit_def literal_def number_of_digits_def has_property_def)

text \<open>
  Claim C1, as amended. For every registry that is not empty: when the submitted
  \<^verbatim>\<open>_action\<close> names the registered action \<open>A\<close>, the form passes the schema of \<open>A\<close>
  (extended with the discriminator) and the handler of \<open>A\<close> returns an outcome, the
  response has exactly the key \<open>A\<close>, mapped to that outcome with its \<^verbatim>\<open>init\<close> removed and
  every other property as the handler returned it; the \<^verbatim>\<open>init\<close> of the outcome is the
  init of the response, omitted when the outcome has none. The outcome is
  \<^verbatim>\<open>success: true\<close> with the handler's data when the handler returned \<^verbatim>\<open>ctx.data(...)\<close>,
  and the handler's own failure when it returned \<^verbatim>\<open>ctx.error(...)\<close>.
\<close>

theorem matchAction_valid_submission:
  assumes "request args = Inr fd"
      and "lookup (fromEntries fd) ''_action'' = JStr A"
      and "map_of (entries acts) A = Some a"
      and "object_parse (extended A a) (fromEntries fd) = ParseSuccess v"
      and "handler a \<lparr>input = v\<rparr> args = Inr output"
  shows "matchAction args acts =
           Inr \<lparr>data = JObj [(A, JObj (delete_prop output ''init''))],
                init = lookup output ''init''\<rparr>
         \<and> ''init'' \<notin> set (map fst (delete_prop output ''init''))
         \<and> (\<forall>k. k \<noteq> ''init'' \<longrightarrow> map_of (delete_prop output ''init'') k = map_of output k)
         \<and> (''init'' \<notin> set (map fst output) \<longrightarrow> lookup output ''init'' = JUndefined)
         \<and> (\<forall>payload i. output = ctx_data payload i \<longrightarrow>
               delete_prop output ''init'' = [(''success'', JBool True), (''data'', payload)]
               \<and> lookup output ''init'' = i)
         \<and> (\<forall>e i fe. output = ctx_error e i fe \<longrightarrow>
               delete_prop output ''init'' =
                 [(''success'', JBool False), (''error'', e), (''fieldErrors'', fe)]
               \<and> lookup output ''init'' = i)"
proof -
  have "matchAction args acts =
           Inr \<lparr>data = JObj [(A, JObj (delete_prop output ''init''))],
                init = lookup output ''init''\<rparr>"
    by (simp add: matchAction_success(2) [OF assms(1-4)] assms(5))
  moreover have "\<forall>payload i. output = ctx_data payload i \<longrightarrow>
               delete_prop output ''init'' = [(''success'', JBool True), (''data'', payload)]
               \<and> lookup output ''init'' = i"
    by (simp add: ctx_data_def delete_prop_def lookup_def)
  moreover have "\<forall>e i fe. output = ctx_error e i fe \<longrightarrow>
               delete_prop output ''init'' =
                 [(''success'', JBool False), (''error'', e), (''fieldErrors'', fe)]
               \<and> lookup output ''init'' = i"
    by (simp add: ctx_error_def delete_prop_def lookup_def)
  ultimately show ?thesis
    by (simp add: delete_prop_absent map_of_delete_prop lookup_absent)
qed

text \<open>The first case of the test file: \<^verbatim>\<open>_action=test\<close>, \<^verbatim>\<open>data=1\<close> and the route \<^verbatim>\<open>/1\<close>.\<close>

theorem matchAction_valid_submission_witness:
  "matchAction
     \<lparr>request = Inr [(''_action'', JStr ''test''), (''data'', JStr ''1'')], params = ''1''\<rparr>
     registry =
   Inr \<lparr>data = JObj [(''test'', JObj [(''success'', JBool True),
            (''data'', JObj [(''id'', JStr ''1''), (''data'', JNum 1)])])],
        init = JNum 200\<rparr>"
proof -
  let ?fd = "[(''_action'', JStr ''test''), (''data'', JStr ''1'')]"
  let ?args = "\<lparr>request = Inr ?fd, params = ''1''\<rparr>"
  let ?v = "JObj [(''data'', JNum 1), (''_action'', JStr ''test'')]"
  let ?payload = "JObj [(''id'', JStr ''1''), (''data'', JNum 1)]"
  have 1: "request ?args = Inr ?fd" by simp
  have 2: "lookup (fromEntries ?fd) ''_action'' = JStr ''test''"
    by (simp add: fromEntries_def lookup_def)
  have 3: "map_of (entries registry) ''test'' = Some test" by (simp add: registry_def)
  have 5: "handler test \<lparr>input = ?v\<rparr> ?args = Inr (ctx_data ?payload (JNum 200))"
    by (simp add: test_def lookup_def string_of_nat.simps digit_def)
  show ?thesis
    using matchAction_valid_submission [OF 1 2 3 test_valid_parse 5]
    by (simp add: ctx_data_def delete_prop_def lookup_def)
qed

text \<open>
  The claim C1 as it is written promises \<^verbatim>\<open>success: true\<close> for every valid submission.
  The second case of the test file (\<^verbatim>\<open>_action=test\<close>, \<^verbatim>\<open>data=1\<close> and the route \<^verbatim>\<open>/2\<close>)
  is a valid submission whose handler declares a failure: the response has
  \<^verbatim>\<open>success: false\<close>, at status 403.
\<close>

theorem valid_submission_failure_outcome:
  "object_parse (extended ''test'' test)
       (fromEntries [(''_action'', JStr ''test''), (''data'', JStr ''1'')])
     = ParseSuccess (JObj [(''data'', JNum 1), (''_action'', JStr ''test'')])
   \<and> matchAction
       \<lparr>request = Inr [(''_action'', JStr ''test''), (''data'', JStr ''1'')], params = ''2''\<rparr>
       registry =
     Inr \<lparr>data = JObj [(''test'', JObj [(''success'', JBool False),
              (''error'', JStr ''Invalid data''),
              (''fieldErrors'',
               JObj [(''data'', JArr [JStr ''data and id param must match''])])])],
          init = JNum 403\<rparr>"
proof -
  let ?fd = "[(''_action'', JStr ''test''), (''data'', JStr ''1'')]"
  let ?args = "\<lparr>request = Inr ?fd, params = ''2''\<rparr>"
  have 1: "request ?args = Inr ?fd" by simp
  have 2: "lookup (fromEntries ?fd) ''_action'' = JStr ''test''"
    by (simp add: fromEntries_def lookup_def)
  have 3: "map_of (entries registry) ''test'' = Some test" by (simp add: registry_def)
  show ?thesis
    by (simp add: test_valid_parse matchAction_success(2) [OF 1 2 3 test_valid_parse])
       (simp add: test_def lookup_def string_of_nat.simps digit_def ctx_error_def
          delete_prop_def)
qed

section \<open>The input of the handler\<close>

text \<open>
  Claim C3, as amended. On validation success the handler of the matched action \<open>A\<close> is
  called with a context whose \<^verbatim>\<open>input\<close> is the whole parsed data of the schema of \<open>A\<close>
  extended with the discriminator: the parsed fields of the schema and also the field
  \<^verbatim>\<open>_action\<close>, whose value is the name \<open>A\<close>.
\<close>

theorem handler_input_is_parsed_data:
  assumes "request args = Inr fd"
      and "lookup (fromEntries fd) ''_action'' = JStr A"
      and "map_of (entries acts) A = Some a"
      and "object_parse (extended A a) (fromEntries fd) = ParseSuccess v"
  shows "matchAction args acts =
           (case handler a \<lparr>input = v\<rparr> args of
              Inl e \<Rightarrow> Inl e
            | Inr output \<Rightarrow>
                Inr \<lparr>data = JObj [(A, JObj (delete_prop output ''init''))],
                     init = lookup output ''init''\<rparr>)
         \<and> v = JObj (object_value (extended A a) (fromEntries fd))
         \<and> get_prop v ''_action'' = JStr A"
proof -
  from assms(4) have "v = JObj (object_value (extended A a) (fromEntries fd))"
    by (simp add: object_parse_def split: if_splits)
  with matchAction_success [OF assms] show ?thesis by simp
qed

theorem handler_input_is_parsed_data_witness:
  "matchAction
     \<lparr>request = Inr [(''_action'', JStr ''test''), (''data'', JStr ''1'')], params = ''1''\<rparr>
     registry =
     (case handler test \<lparr>input = JObj [(''data'', JNum 1), (''_action'', JStr ''test'')]\<rparr>
             \<lparr>request = Inr [(''_action'', JStr ''test''), (''data'', JStr ''1'')],
              params = ''1''\<rparr> of
        Inl e \<Rightarrow> Inl e
      | Inr output \<Rightarrow>
          Inr \<lparr>data = JObj [(''test'', JObj (delete_prop output ''init''))],
               init = lookup output ''init''\<rparr>)
   \<and> get_prop (JObj [(''data'', JNum 1), (''_action'', JStr ''test'')]) ''_action'' =
       JStr ''test''"
proof -
  let ?fd = "[(''_action'', JStr ''test''), (''data'', JStr ''1'')]"
  let ?args = "\<lparr>request = Inr ?fd, params = ''1''\<rparr>"
  have 1: "request ?args = Inr ?fd" by simp
  have 2: "lookup (fromEntries ?fd) ''_action'' = JStr ''test''"
    by (simp add: fromEntries_def lookup_def)
  have 3: "map_of (entries registry) ''test'' = Some test" by (simp add: registry_def)
  from handler_input_is_parsed_data [OF 1 2 3 test_valid_parse] show ?thesis
    by blast
qed

text \<open>
  The claim C3 as it is written says that the input has no field \<^verbatim>\<open>_action\<close>. A handler
  that answers with its input shows the field: after \<^verbatim>\<open>_action=reflect\<close> and
  \<^verbatim>\<open>value=hi\<close> the input is \<^verbatim>\<open>{ value: "hi", _action: "reflect" }\<close>.
\<close>

theorem handler_input_has_discriminator:
  "matchAction
     \<lparr>request = Inr [(''_action'', JStr ''reflect''), (''value'', JStr ''hi'')],
      params = ''1''\<rparr>
     \<lparr>entries = [(''reflect'', reflect)], inherited = Object_prototype\<rparr> =
   Inr \<lparr>data = JObj [(''reflect'', JObj [(''success'', JBool True),
            (''data'', JObj [(''value'', JStr ''hi''), (''_action'', JStr ''reflect'')])])],
        init = JUndefined\<rparr>"
  by (simp add: matchAction_def spa_def union_schema_def fromEntries_def lookup_def
      object_parse_def object_issues_def object_value_def extended_def extend_schema_def
      reflect_def field_issues_def literal_def has_property_def ctx_data_def delete_prop_def)

section \<open>Validation failure\<close>

lemma test_invalid_parse:
  "spa (union_schema (entries registry))
       (fromEntries [(''_action'', JStr ''test''), (''data'', JStr ''one'')])
     = ParseError [([''data''], ''expected number'')]"
  by (simp add: spa_def union_schema_def registry_def fromEntries_def lookup_def
      object_parse_def object_issues_def extended_def extend_schema_def test_def
      field_issues_def coerce_number_def is_digit_def literal_def)

text \<open>
  Claim C2. For a registry that is not empty: when the validation of the submitted form
  fails and the raw submitted value of \<^verbatim>\<open>_action\<close> (what \<^verbatim>\<open>formData.get\<close> returns) is
  a string that names a registered action, \<^verbatim>\<open>matchAction\<close> returns, and does not throw,
  the response whose only key is that action, with \<^verbatim>\<open>success: false\<close> and with
  \<^verbatim>\<open>fieldErrors\<close> the flattened field errors of the validator, at status 400.
\<close>

theorem matchAction_validation_failure:
  assumes "entries acts \<noteq> []"
      and "request args = Inr fd"
      and "spa (union_schema (entries acts)) (fromEntries fd) = ParseError issues"
      and "formData_get fd ''_action'' = JStr A"
      and "A \<in> set (map fst (entries acts))"
  shows "matchAction args acts =
           Inr \<lparr>data = JObj [(A, JObj [(''success'', JBool False),
                                        (''fieldErrors'', flatten_fieldErrors issues)])],
                init = JNum 400\<rparr>"
  using assms by (simp add: matchAction_def in_actions_def)

text \<open>The third case of the test file: \<^verbatim>\<open>_action=test\<close> and \<^verbatim>\<open>data=one\<close>.\<close>

theorem matchAction_validation_failure_witness:
  "matchAction
     \<lparr>request = Inr [(''_action'', JStr ''test''), (''data'', JStr ''one'')], params = ''1''\<rparr>
     registry =
     Inr \<lparr>data = JObj [(''test'', JObj [(''success'', JBool False),
              (''fieldErrors'', JObj [(''data'', JArr [JStr ''expected number''])])])],
          init = JNum 400\<rparr>"
proof -
  let ?fd = "[(''_action'', JStr ''test''), (''data'', JStr ''one'')]"
  have 1: "entries registry \<noteq> []" by (simp add: registry_def)
  have 2: "request \<lparr>request = Inr ?fd, params = ''1''\<rparr> = Inr ?fd" by simp
  have 4: "formData_get ?fd ''_action'' = JStr ''test''" by (simp add: formData_get_def)
  have 5: "''test'' \<in> set (map fst (entries registry))" by (simp add: registry_def)
  have 6: "flatten_fieldErrors [([''data''], ''expected number'')] =
             JObj [(''data'', JArr [JStr ''expected number''])]"
    by (simp add: flatten_fieldErrors_def flatten_step_def)
  show ?thesis
    using matchAction_validation_failure [OF 1 2 test_invalid_parse 4 5] by (simp add: 6)
qed

text \<open>
  A form may repeat a field. The validation then reads the last value of \<^verbatim>\<open>_action\<close>
  (\<^verbatim>\<open>Object.fromEntries\<close>) and the failure path the first one (\<^verbatim>\<open>formData.get\<close>):
  here the field errors of \<^verbatim>\<open>test\<close> are returned under the key \<^verbatim>\<open>ping\<close>.
\<close>

lemma repeated_action_field:
  "matchAction
     \<lparr>request = Inr [(''_action'', JStr ''ping''), (''_action'', JStr ''test''),
                     (''data'', JStr ''one'')],
      params = ''1''\<rparr>
     registry =
   Inr \<lparr>data = JObj [(''ping'', JObj [(''success'', JBool False),
            (''fieldErrors'', JObj [(''data'', JArr [JStr ''expected number''])])])],
        init = JNum 400\<rparr>"
  by (simp add: matchAction_def spa_def union_schema_def fromEntries_def lookup_def
      registry_def formData_get_def in_actions_def object_parse_def object_issues_def
      extended_def extend_schema_def test_def field_issues_def coerce_number_def is_digit_def
      literal_def flatten_fieldErrors_def flatten_step_def)

section \<open>The result accessor on an absent result\<close>

text \<open>
  Claim C7. For every target action name and every options: applied to an undefined
  response, to a response that has no entry for the target, or to a response whose entry
  for the target has \<^verbatim>\<open>success\<close> undefined, \<^verbatim>\<open>actionResult\<close> returns
  \<^verbatim>\<open>{ success: undefined }\<close>, an object with no \<^verbatim>\<open>data\<close>, \<^verbatim>\<open>error\<close> or
  \<^verbatim>\<open>fieldErrors\<close>.
\<close>

theorem actionResult_undefined:
  assumes "result = None \<or>
           (\<exists>r. result = Some r \<and>
              (action \<notin> set (map fst r) \<or> get_prop (lookup r action) ''success'' = JUndefined))"
  shows "actionResult result action opts = [(''success'', JUndefined)]"
proof -
  have absent: "lookup r action = JUndefined" if "action \<notin> set (map fst r)" for r
  proof -
    from that have "map_of r action = None" by (simp add: map_of_eq_None_iff)
    then show ?thesis by (simp add: lookup_def)
  qed
  from assms consider "result = None"
    | r where "result = Some r" "action \<notin> set (map fst r)"
    | r where "result = Some r" "get_prop (lookup r action) ''success'' = JUndefined"
    by blast
  then show ?thesis
  proof cases
    case 1
    then show ?thesis by (simp add: actionResult_def)
  next
    case 2
    then show ?thesis by (simp add: actionResult_def absent)
  next
    case 3
    then show ?thesis by (simp add: actionResult_def)
  qed
qed

theorem actionResult_undefined_witness:
  "actionResult None ''test'' JUndefined = [(''success'', JUndefined)]
   \<and> actionResult (Some []) ''test'' (JObj [(''errors'', JStr ''all'')]) =
       [(''success'', JUndefined)]
   \<and> actionResult (Some [(''test'', JObj [(''data'', JNum 1)])]) ''test'' JUndefined =
       [(''success'', JUndefined)]"
proof -
  have a: "actionResult None ''test'' JUndefined = [(''success'', JUndefined)]"
    using actionResult_undefined [of None "''test''" JUndefined] by simp
  have b: "actionResult (Some []) ''test'' (JObj [(''errors'', JStr ''all'')]) =
             [(''success'', JUndefined)]"
    using actionResult_undefined [of "Some []" "''test''" "JObj [(''errors'', JStr ''all'')]"]
    by simp
  have c: "actionResult (Some [(''test'', JObj [(''data'', JNum 1)])]) ''test'' JUndefined =
             [(''success'', JUndefined)]"
    using actionResult_undefined
      [of "Some [(''test'', JObj [(''data'', JNum 1)])]" "''test''" JUndefined]
    by (simp add: lookup_def)
  from a b c show ?thesis by simp
qed

section \<open>Every response of the dispatcher\<close>

lemma matchAction_empty_registry:
  "entries acts = [] \<Longrightarrow> matchAction args acts = Inr \<lparr>data = JObj [], init = JNum 400\<rparr>"
  by (simp add: matchAction_def)

lemma matchAction_cases:
  assumes "matchAction args acts = Inr r"
  shows "(r = \<lparr>data = JObj [], init = JNum 400\<rparr> \<and>
           (entries acts = [] \<or>
            (\<exists>fd issues. request args = Inr fd
               \<and> spa (union_schema (entries acts)) (fromEntries fd) = ParseError issues
               \<and> \<not> (\<exists>A. formData_get fd ''_action'' = JStr A \<and> in_actions A acts))))
       \<or> (\<exists>fd issues A. entries acts \<noteq> [] \<and> request args = Inr fd
               \<and> spa (union_schema (entries acts)) (fromEntries fd) = ParseError issues
               \<and> formData_get fd ''_action'' = JStr A \<and> in_actions A acts
               \<and> r = \<lparr>data = JObj [(A, JObj [(''success'', JBool False),
                                               (''fieldErrors'', flatten_fieldErrors issues)])],
                       init = JNum 400\<rparr>)
       \<or> (\<exists>fd v A a output. entries acts \<noteq> [] \<and> request args = Inr fd
               \<and> spa (union_schema (entries acts)) (fromEntries fd) = ParseSuccess v
               \<and> get_prop v ''_action'' = JStr A \<and> map_of (entries acts) A = Some a
               \<and> handler a \<lparr>input = v\<rparr> args = Inr output
               \<and> r = \<lparr>data = JObj [(A, JObj (delete_prop output ''init''))],
                       init = lookup output ''init''\<rparr>)"
proof (cases "entries acts = []")
  case True
  with assms show ?thesis by (simp add: matchAction_def)
next
  case ne: False
  from assms ne obtain fd where fd: "request args = Inr fd"
    by (cases "request args") (simp_all add: matchAction_def)
  show ?thesis
  proof (cases "spa (union_schema (entries acts)) (fromEntries fd)")
    case (ParseSuccess v)
    with assms ne fd obtain A where A: "get_prop v ''_action'' = JStr A"
      by (cases "get_prop v ''_action''") (simp_all add: matchAction_def)
    with assms ne fd ParseSuccess obtain a where a: "map_of (entries acts) A = Some a"
      by (cases "map_of (entries acts) A") (simp_all add: matchAction_def)
    with assms ne fd ParseSuccess A obtain outcome
      where out: "handler a \<lparr>input = v\<rparr> args = Inr outcome"
      by (cases "handler a \<lparr>input = v\<rparr> args") (simp_all add: matchAction_def)
    with assms ne fd ParseSuccess A a
    have "r = \<lparr>data = JObj [(A, JObj (delete_prop outcome ''init''))],
              init = lookup outcome ''init''\<rparr>"
      by (simp add: matchAction_def)
    with ne fd ParseSuccess A a out show ?thesis by blast
  next
    case (ParseError issues)
    show ?thesis
    proof (cases "\<exists>A. formData_get fd ''_action'' = JStr A \<and> in_actions A acts")
      case True
      then obtain A where A: "formData_get fd ''_action'' = JStr A" "in_actions A acts"
        by blast
      with assms ne fd ParseError
      have "r = \<lparr>data = JObj [(A, JObj [(''success'', JBool False),
                                        (''fieldErrors'', flatten_fieldErrors issues)])],
                init = JNum 400\<rparr>"
        by (simp add: matchAction_def)
      with ne fd ParseError A show ?thesis by blast
    next
      case False
      with assms ne fd ParseError have "r = \<lparr>data = JObj [], init = JNum 400\<rparr>"
        by (cases "formData_get fd ''_action''") (auto simp: matchAction_def split: if_splits)
      with fd ParseError False show ?thesis by blast
    qed
  qed
qed


lemma test_valid_submission:
  "matchAction
     \<lparr>request = Inr [(''_action'', JStr ''test''), (''data'', JStr ''1'')], params = ''1''\<rparr>
     registry =
   Inr \<lparr>data = JObj [(''test'', JObj [(''success'', JBool True),
            (''data'', JObj [(''id'', JStr ''1''), (''data'', JNum 1)])])],
        init = JNum 200\<rparr>"
proof -
  let ?fd = "[(''_action'', JStr ''test''), (''data'', JStr ''1'')]"
  let ?args = "\<lparr>request = Inr ?fd, params = ''1''\<rparr>"
  have 1: "request ?args = Inr ?fd" by simp
  have 2: "lookup (fromEntries ?fd) ''_action'' = JStr ''test''"
    by (simp add: fromEntries_def lookup_def)
  have 3: "map_of (entries registry) ''test'' = Some test" by (simp add: registry_def)
  show ?thesis
    by (simp add: matchAction_success(2) [OF 1 2 3 test_valid_parse])
       (simp add: test_def lookup_def string_of_nat.simps digit_def ctx_data_def
          delete_prop_def)
qed




text \<open>
  Claim C6. For every input and every handler, no outcome stored in the response that
  \<^verbatim>\<open>matchAction\<close> returns has the property \<^verbatim>\<open>init\<close>, on the path of a successful
  validation and on the path of a failed one.
\<close>

theorem matchAction_init_consumed:
  assumes "matchAction args acts = Inr r"
  shows "\<forall>k outcome. (k, outcome) \<in> set (Object_entries (data r)) \<longrightarrow>
           ''init'' \<notin> set (map fst (Object_entries outcome))"
  using matchAction_cases [OF assms] by (auto simp: delete_prop_def)

theorem matchAction_init_consumed_witness:
  "matchAction
     \<lparr>request = Inr [(''_action'', JStr ''test''), (''data'', JStr ''1'')], params = ''1''\<rparr>
     registry =
   Inr \<lparr>data = JObj [(''test'', JObj [(''success'', JBool True),
            (''data'', JObj [(''id'', JStr ''1''), (''data'', JNum 1)])])],
        init = JNum 200\<rparr>
   \<and> ''init'' \<notin> set (map fst (Object_entries (JObj [(''success'', JBool True),
            (''data'', JObj [(''id'', JStr ''1''), (''data'', JNum 1)])])))"
proof -
  let ?outcome = "JObj [(''success'', JBool True),
            (''data'', JObj [(''id'', JStr ''1''), (''data'', JNum 1)])]"
  let ?r = "\<lparr>data = JObj [(''test'', ?outcome)], init = JNum 200\<rparr>"
  have m: "(''test'', ?outcome) \<in> set (Object_entries (data ?r))" by simp
  from matchAction_init_consumed [OF test_valid_submission] m
  have "''init'' \<notin> set (map fst (Object_entries ?outcome))"
    by (elim allE impE)
  with test_valid_submission show ?thesis by (intro conjI)
qed

text \<open>
  Claim C4 says that the response is empty, at status 400, in exactly the unrecognized
  cases: an empty registry, or a failed validation with a submitted \<^verbatim>\<open>_action\<close> that is
  missing, not a string, or not the name of a registered action. The empty registry does
  return at once (\<open>matchAction_empty_registry\<close>, whatever the request), and an empty
  response does mean an unrecognized case (\<open>matchAction_cases\<close>). But the test
  \<^verbatim>\<open>action in actions\<close> also holds for a name the registry object inherits: for the
  registry of the test file (an object literal) and the form \<^verbatim>\<open>_action=toString\<close>, which
  names no registered action, the response is not empty.
\<close>

theorem matchAction_inherited_name:
  "matchAction \<lparr>request = Inr [(''_action'', JStr ''toString'')], params = ''1''\<rparr> registry =
     Inr \<lparr>data = JObj [(''toString'', JObj [(''success'', JBool False),
              (''fieldErrors'',
               JObj [(''_action'',
                 JArr [JStr (''Invalid discriminator value. Expected '' @ quoted ''test'' @ '' | '' @ quoted ''ping'')])])])],
          init = JNum 400\<rparr>
   \<and> ''toString'' \<notin> set (map fst (entries registry))"
  by (simp add: matchAction_def spa_def union_schema_def fromEntries_def lookup_def
      registry_def formData_get_def in_actions_def Object_prototype_def
      flatten_fieldErrors_def flatten_step_def)

section \<open>The result accessor on a failed entry\<close>

lemma Object_entries_falsy: "\<not> truthy v \<Longrightarrow> Object_entries v = []"
  by (cases v) simp_all

lemma map_of_collapsed:
  "distinct (map fst es) \<Longrightarrow>
   map_of (foldl first_error [] es) k =
     (case map_of es k of
        None \<Rightarrow> None
      | Some errs \<Rightarrow>
          if truthy (elem0 errs) \<and> k \<noteq> ''__proto__'' then Some (elem0 errs) else None)"
  by (simp add: map_of_foldl_first_error split: option.splits)

lemma actionResult_absent:
  "get_prop (case result of None \<Rightarrow> JUndefined | Some r \<Rightarrow> lookup r action) ''success'' = JUndefined
   \<Longrightarrow> actionResult result action opts = [(''success'', JUndefined)]"
  by (simp add: actionResult_def)

lemma actionResult_succeeded:
  "truthy (get_prop (case result of None \<Rightarrow> JUndefined | Some r \<Rightarrow> lookup r action) ''success'')
   \<Longrightarrow> actionResult result action opts =
         [(''success'', JBool True),
          (''data'', get_prop (case result of None \<Rightarrow> JUndefined | Some r \<Rightarrow> lookup r action) ''data'')]"
  by (auto simp: actionResult_def Let_def)

lemma actionResult_failed:
  assumes "get_prop (case result of None \<Rightarrow> JUndefined | Some r \<Rightarrow> lookup r action) ''success'' \<noteq> JUndefined"
      and "\<not> truthy (get_prop (case result of None \<Rightarrow> JUndefined | Some r \<Rightarrow> lookup r action) ''success'')"
      and "fe = get_prop (case result of None \<Rightarrow> JUndefined | Some r \<Rightarrow> lookup r action) ''fieldErrors''"
  shows "actionResult result action opts =
           [(''success'', JBool False),
            (''error'', get_prop (case result of None \<Rightarrow> JUndefined | Some r \<Rightarrow> lookup r action) ''error''),
            (''fieldErrors'',
             if truthy fe \<and> get_prop opts ''errors'' \<noteq> JStr ''all''
             then JObj (foldl first_error [] (Object_entries fe))
             else fe)]"
  using assms by (simp add: actionResult_def Let_def)

text \<open>
  Claim C8, as amended. When the entry of the target action has \<^verbatim>\<open>success: false\<close>,
  \<^verbatim>\<open>actionResult\<close> returns \<^verbatim>\<open>{ success: false, error, fieldErrors }\<close> with the error of
  the entry unchanged; \<^verbatim>\<open>fieldErrors\<close> is the one of the entry, unmodified, when the
  option \<^verbatim>\<open>errors\<close> is \<^verbatim>\<open>"all"\<close> (and stays undefined when the entry has none);
  otherwise (mode \<^verbatim>\<open>"first"\<close>, the default) it is collapsed: every field, other than one
  named \<^verbatim>\<open>__proto__\<close>, whose list has a truthy first element (a string that is not empty)
  is mapped to that first element, and a field whose list is empty or starts with the
  empty string is dropped.
\<close>

theorem actionResult_failure:
  assumes "get_prop (lookup r action) ''success'' = JBool False"
  shows "\<exists>fe'. actionResult (Some r) action opts =
            [(''success'', JBool False),
             (''error'', get_prop (lookup r action) ''error''),
             (''fieldErrors'', fe')]
         \<and> (get_prop opts ''errors'' = JStr ''all'' \<longrightarrow>
              fe' = get_prop (lookup r action) ''fieldErrors'')
         \<and> (get_prop (lookup r action) ''fieldErrors'' = JUndefined \<longrightarrow> fe' = JUndefined)
         \<and> (get_prop opts ''errors'' \<noteq> JStr ''all'' \<longrightarrow>
              (\<forall>fe. get_prop (lookup r action) ''fieldErrors'' = JObj fe \<and> distinct (map fst fe) \<longrightarrow>
                 (\<exists>c. fe' = JObj c \<and>
                    (\<forall>f. f \<noteq> ''__proto__'' \<longrightarrow>
                       map_of c f =
                         (case map_of fe f of
                            None \<Rightarrow> None
                          | Some errs \<Rightarrow>
                              if truthy (elem0 errs) then Some (elem0 errs) else None)))))"
proof -
  let ?fe = "get_prop (lookup r action) ''fieldErrors''"
  let ?fe' = "if truthy ?fe \<and> get_prop opts ''errors'' \<noteq> JStr ''all''
              then JObj (foldl first_error [] (Object_entries ?fe)) else ?fe"
  have 1: "actionResult (Some r) action opts =
            [(''success'', JBool False),
             (''error'', get_prop (lookup r action) ''error''),
             (''fieldErrors'', ?fe')]"
    using assms by (simp add: actionResult_failed [where result = "Some r"])
  have 2: "get_prop opts ''errors'' = JStr ''all'' \<longrightarrow> ?fe' = ?fe" by simp
  have 3: "?fe = JUndefined \<longrightarrow> ?fe' = JUndefined" by simp
  have 4: "\<exists>c. ?fe' = JObj c \<and>
             (\<forall>f. f \<noteq> ''__proto__'' \<longrightarrow>
                map_of c f =
                  (case map_of fe f of
                     None \<Rightarrow> None
                   | Some errs \<Rightarrow> if truthy (elem0 errs) then Some (elem0 errs) else None))"
    if "get_prop opts ''errors'' \<noteq> JStr ''all''" "?fe = JObj fe" "distinct (map fst fe)" for fe
  proof -
    from that(1,2) have "?fe' = JObj (foldl first_error [] fe)" by simp
    moreover have "map_of (foldl first_error [] fe) f =
        (case map_of fe f of
           None \<Rightarrow> None
         | Some errs \<Rightarrow> if truthy (elem0 errs) then Some (elem0 errs) else None)"
      if "f \<noteq> ''__proto__''" for f
      using that by (simp add: map_of_collapsed [OF \<open>distinct (map fst fe)\<close>] split: option.splits)
    ultimately show ?thesis by blast
  qed
  from 1 2 3 4 show ?thesis by blast
qed

theorem actionResult_failure_witness:
  "actionResult
     (Some [(''test'', JObj [(''success'', JBool False), (''error'', JStr ''Invalid data''),
        (''fieldErrors'', JObj [(''a'', JArr [JStr ''x'', JStr ''y'']), (''b'', JArr [])])])])
     ''test'' JUndefined =
   [(''success'', JBool False), (''error'', JStr ''Invalid data''),
    (''fieldErrors'', JObj [(''a'', JStr ''x'')])]"
proof -
  let ?r = "[(''test'', JObj [(''success'', JBool False), (''error'', JStr ''Invalid data''),
        (''fieldErrors'', JObj [(''a'', JArr [JStr ''x'', JStr ''y'']), (''b'', JArr [])])])]"
  have s: "get_prop (lookup ?r ''test'') ''success'' = JBool False"
    by (simp add: lookup_def)
  from actionResult_failure [OF s, of JUndefined]
  have "\<exists>fe'. actionResult (Some ?r) ''test'' JUndefined =
      [(''success'', JBool False), (''error'', get_prop (lookup ?r ''test'') ''error''),
       (''fieldErrors'', fe')]"
    by (elim exE conjE) (rule exI)
  moreover have "actionResult (Some ?r) ''test'' JUndefined =
     [(''success'', JBool False), (''error'', JStr ''Invalid data''),
      (''fieldErrors'', JObj [(''a'', JStr ''x'')])]"
    by (simp add: actionResult_def lookup_def first_error_def assign_prop_def)
  ultimately show ?thesis by simp
qed

text \<open>
  The claim C8 as it is written drops only the fields with an empty list. The list
  \<^verbatim>\<open>[""]\<close> is not empty and its field is dropped, not mapped to its first element.
\<close>

theorem empty_first_error_dropped:
  "actionResult
     (Some [(''test'', JObj [(''success'', JBool False),
        (''fieldErrors'', JObj [(''name'', JArr [JStr []])])])])
     ''test'' JUndefined =
   [(''success'', JBool False), (''error'', JUndefined), (''fieldErrors'', JObj [])]"
  by (simp add: actionResult_def lookup_def first_error_def assign_prop_def)

text \<open>
  Claim C9. For every response and target action, and for every field present in the
  \<^verbatim>\<open>fieldErrors\<close> of both the output in mode \<^verbatim>\<open>"first"\<close> (any option but \<^verbatim>\<open>"all"\<close>)
  and the output in mode \<^verbatim>\<open>"all"\<close>, the value in mode \<^verbatim>\<open>"first"\<close> is the first element
  of the list in mode \<^verbatim>\<open>"all"\<close>. The keys of the \<^verbatim>\<open>fieldErrors\<close> object are distinct, as
  those of every object are.
\<close>

theorem first_mode_is_head_of_all_mode:
  assumes "get_prop optsF ''errors'' \<noteq> JStr ''all''"
      and "get_prop optsA ''errors'' = JStr ''all''"
      and "distinct (map fst (Object_entries (lookup (actionResult result action optsA) ''fieldErrors'')))"
      and "map_of (Object_entries (lookup (actionResult result action optsF) ''fieldErrors'')) f = Some x"
      and "map_of (Object_entries (lookup (actionResult result action optsA) ''fieldErrors'')) f = Some errs"
  shows "x = elem0 errs \<and> (\<forall>xs. errs = JArr xs \<longrightarrow> xs \<noteq> [] \<and> x = hd xs)"
proof -
  let ?entry = "case result of None \<Rightarrow> JUndefined | Some r \<Rightarrow> lookup r action"
  define fe where "fe = get_prop ?entry ''fieldErrors''"
  have defined: "get_prop ?entry ''success'' \<noteq> JUndefined"
  proof
    assume "get_prop ?entry ''success'' = JUndefined"
    then have "actionResult result action optsA = [(''success'', JUndefined)]"
      by (rule actionResult_absent)
    with assms(5) show False by (simp add: lookup_def)
  qed
  have falsy: "\<not> truthy (get_prop ?entry ''success'')"
  proof
    assume "truthy (get_prop ?entry ''success'')"
    then have "actionResult result action optsA =
                 [(''success'', JBool True), (''data'', get_prop ?entry ''data'')]"
      by (rule actionResult_succeeded)
    with assms(5) show False by (simp add: lookup_def)
  qed
  have all: "lookup (actionResult result action optsA) ''fieldErrors'' = fe"
    using assms(2) by (simp add: actionResult_failed [OF defined falsy fe_def] lookup_def)
  have first: "lookup (actionResult result action optsF) ''fieldErrors'' =
      (if truthy fe then JObj (foldl first_error [] (Object_entries fe)) else fe)"
    using assms(1) by (simp add: actionResult_failed [OF defined falsy fe_def] lookup_def)
  have t: "truthy fe"
  proof (rule ccontr)
    assume "\<not> truthy fe"
    with assms(5) all show False by (simp add: Object_entries_falsy)
  qed
  from assms(3) all have d: "distinct (map fst (Object_entries fe))" by simp
  from assms(4) first t have "map_of (foldl first_error [] (Object_entries fe)) f = Some x"
    by simp
  moreover from assms(5) all have "map_of (Object_entries fe) f = Some errs" by simp
  ultimately have x: "x = elem0 errs" and tx: "truthy (elem0 errs)"
    by (auto simp: map_of_collapsed [OF d] split: if_splits)
  from x tx show ?thesis by (auto split: list.splits)
qed

theorem first_mode_is_head_of_all_mode_witness:
  "map_of (Object_entries (lookup
      (actionResult
         (Some [(''test'', JObj [(''success'', JBool False),
            (''fieldErrors'', JObj [(''data'', JArr [JStr ''expected number'', JStr ''too small''])])])])
         ''test'' JUndefined) ''fieldErrors'')) ''data'' = Some (JStr ''expected number'')
   \<and> map_of (Object_entries (lookup
      (actionResult
         (Some [(''test'', JObj [(''success'', JBool False),
            (''fieldErrors'', JObj [(''data'', JArr [JStr ''expected number'', JStr ''too small''])])])])
         ''test'' (JObj [(''errors'', JStr ''all'')])) ''fieldErrors'')) ''data'' =
       Some (JArr [JStr ''expected number'', JStr ''too small''])
   \<and> JStr ''expected number'' = elem0 (JArr [JStr ''expected number'', JStr ''too small''])"
proof -
  let ?r = "Some [(''test'', JObj [(''success'', JBool False),
            (''fieldErrors'', JObj [(''data'', JArr [JStr ''expected number'', JStr ''too small''])])])]"
  let ?all = "JObj [(''errors'', JStr ''all'')]"
  have 1: "get_prop JUndefined ''errors'' \<noteq> JStr ''all''" by simp
  have 2: "get_prop ?all ''errors'' = JStr ''all''" by (simp add: lookup_def)
  have a: "lookup (actionResult ?r ''test'' ?all) ''fieldErrors'' =
             JObj [(''data'', JArr [JStr ''expected number'', JStr ''too small''])]"
    by (simp add: actionResult_def lookup_def)
  have f: "lookup (actionResult ?r ''test'' JUndefined) ''fieldErrors'' =
             JObj [(''data'', JStr ''expected number'')]"
    by (simp add: actionResult_def lookup_def first_error_def assign_prop_def)
  have 3: "distinct (map fst (Object_entries (lookup (actionResult ?r ''test'' ?all) ''fieldErrors'')))"
    by (simp add: a)
  have 4: "map_of (Object_entries (lookup (actionResult ?r ''test'' JUndefined) ''fieldErrors''))
             ''data'' = Some (JStr ''expected number'')"
    by (simp add: f)
  have 5: "map_of (Object_entries (lookup (actionResult ?r ''test'' ?all) ''fieldErrors''))
             ''data'' = Some (JArr [JStr ''expected number'', JStr ''too small''])"
    by (simp add: a)
  from first_mode_is_head_of_all_mode [OF 1 2 3 4 5]
  have "JStr ''expected number'' = elem0 (JArr [JStr ''expected number'', JStr ''too small''])"
    by (rule conjunct1)
  with 4 5 show ?thesis by (intro conjI)
qed

text \<open>
  Claim C10. In mode \<^verbatim>\<open>"first"\<close>, \<^verbatim>\<open>actionResult\<close> drops from the returned
  \<^verbatim>\<open>fieldErrors\<close> every field whose list starts with the empty string, also when the
  list is not empty: a field is kept only when the first element of its list is truthy,
  and then with that element as its value.
\<close>

theorem first_mode_keeps_truthy_first_errors:
  assumes "get_prop (lookup r action) ''success'' = JBool False"
      and "get_prop (lookup r action) ''fieldErrors'' = JObj fe"
      and "distinct (map fst fe)"
      and "get_prop opts ''errors'' \<noteq> JStr ''all''"
  shows "\<exists>c. lookup (actionResult (Some r) action opts) ''fieldErrors'' = JObj c
           \<and> (\<forall>f rest. map_of fe f = Some (JArr (JStr [] # rest)) \<longrightarrow> f \<notin> set (map fst c))
           \<and> (\<forall>f x. map_of c f = Some x \<longrightarrow>
                 truthy x \<and> (\<exists>errs. map_of fe f = Some errs \<and> x = elem0 errs))"
proof -
  let ?c = "foldl first_error [] fe"
  have 1: "lookup (actionResult (Some r) action opts) ''fieldErrors'' = JObj ?c"
    using assms(1,2,4) by (simp add: actionResult_failed [where result = "Some r"] lookup_def)
  have 2: "f \<notin> set (map fst ?c)" if "map_of fe f = Some (JArr (JStr [] # rest))" for f rest
  proof -
    from that have "map_of ?c f = None" by (simp add: map_of_collapsed [OF assms(3)])
    then show ?thesis by (simp add: map_of_eq_None_iff)
  qed
  have 3: "truthy x \<and> (\<exists>errs. map_of fe f = Some errs \<and> x = elem0 errs)"
    if "map_of ?c f = Some x" for f x
    using that by (auto simp: map_of_collapsed [OF assms(3)] split: option.splits if_splits)
  show ?thesis
  proof (intro exI [of _ ?c] conjI allI impI)
    show "lookup (actionResult (Some r) action opts) ''fieldErrors'' = JObj ?c" by (rule 1)
  next
    fix f rest
    assume "map_of fe f = Some (JArr (JStr [] # rest))"
    then show "f \<notin> set (map fst ?c)" by (rule 2)
  next
    fix f x
    assume "map_of ?c f = Some x"
    from 3 [OF this] show "truthy x" ..
  next
    fix f x
    assume "map_of ?c f = Some x"
    from 3 [OF this] show "\<exists>errs. map_of fe f = Some errs \<and> x = elem0 errs" ..
  qed
qed

theorem first_mode_keeps_truthy_first_errors_witness:
  "\<exists>c. lookup
          (actionResult
             (Some [(''test'', JObj [(''success'', JBool False),
                (''fieldErrors'', JObj [(''name'', JArr [JStr [], JStr ''too short'']),
                                        (''email'', JArr [JStr ''invalid''])])])])
             ''test'' JUndefined) ''fieldErrors'' = JObj c
        \<and> ''name'' \<notin> set (map fst c)"
proof -
  let ?fe = "[(''name'', JArr [JStr [], JStr ''too short'']), (''email'', JArr [JStr ''invalid''])]"
  let ?r = "[(''test'', JObj [(''success'', JBool False), (''fieldErrors'', JObj ?fe)])]"
  have 1: "get_prop (lookup ?r ''test'') ''success'' = JBool False" by (simp add: lookup_def)
  have 2: "get_prop (lookup ?r ''test'') ''fieldErrors'' = JObj ?fe" by (simp add: lookup_def)
  have 3: "distinct (map fst ?fe)" by simp
  have 4: "get_prop JUndefined ''errors'' \<noteq> JStr ''all''" by simp
  have n: "map_of ?fe ''name'' = Some (JArr (JStr [] # [JStr ''too short'']))" by simp
  from first_mode_keeps_truthy_first_errors [OF 1 2 3 4]
  obtain c where c: "lookup (actionResult (Some ?r) ''test'' JUndefined) ''fieldErrors'' = JObj c"
    and d: "\<forall>f rest. map_of ?fe f = Some (JArr (JStr [] # rest)) \<longrightarrow> f \<notin> set (map fst c)"
    by (elim exE conjE)
  from d n have "''name'' \<notin> set (map fst c)" by (elim allE impE)
  with c show ?thesis by (intro exI conjI)
qed

end
